theory Spec2Isabelle
  imports Main
begin

section \<open>Text\<close>

text \<open>
  Python \<open>str\<close> values are modelled as \<^typ>\<open>string\<close>, a character standing for the code
  point of its number. The model therefore covers the texts whose code points are below
  256. On this range the character classes the code relies on are those of Python:
  \<open>\s\<close> of \<open>re\<close> and \<open>str.isspace\<close>, which \<open>str.strip\<close> uses, hold for the same twelve
  characters; \<open>\d\<close> holds for the ten ASCII digits only; \<open>str.lower\<close> maps a character to
  one character.
\<close>

definition newline :: char where
  "newline = CHR 0x0A"

definition is_space :: "char \<Rightarrow> bool" where
  \<comment> \<open>\<open>\s\<close> and \<open>str.isspace\<close>: tab, LF, VT, FF, CR, the separators 0x1C..0x1F, blank,
      next line (0x85) and no-break space (0xA0)\<close>
  "is_space c = (c \<in> set [CHR 0x09, CHR 0x0A, CHR 0x0B, CHR 0x0C, CHR 0x0D,
                          CHR 0x1C, CHR 0x1D, CHR 0x1E, CHR 0x1F, CHR 0x20,
                          CHR 0x85, CHR 0xA0])"

definition is_digit :: "char \<Rightarrow> bool" where
  \<comment> \<open>\<open>\d\<close>\<close>
  "is_digit c = (c \<in> set ''0123456789'')"

definition upper_latin :: string where
  \<comment> \<open>the capital letters 0xC0..0xDE, without the multiplication sign 0xD7\<close>
  "upper_latin =
     [CHR 0xC0, CHR 0xC1, CHR 0xC2, CHR 0xC3, CHR 0xC4, CHR 0xC5, CHR 0xC6, CHR 0xC7,
        CHR 0xC8, CHR 0xC9, CHR 0xCA, CHR 0xCB, CHR 0xCC, CHR 0xCD, CHR 0xCE, CHR 0xCF,
        CHR 0xD0, CHR 0xD1, CHR 0xD2, CHR 0xD3, CHR 0xD4, CHR 0xD5, CHR 0xD6, CHR 0xD8,
        CHR 0xD9, CHR 0xDA, CHR 0xDB, CHR 0xDC, CHR 0xDD, CHR 0xDE]"

definition lower_latin :: string where
  \<comment> \<open>their small letters, each 0x20 above its capital\<close>
  "lower_latin =
     [CHR 0xE0, CHR 0xE1, CHR 0xE2, CHR 0xE3, CHR 0xE4, CHR 0xE5, CHR 0xE6, CHR 0xE7,
        CHR 0xE8, CHR 0xE9, CHR 0xEA, CHR 0xEB, CHR 0xEC, CHR 0xED, CHR 0xEE, CHR 0xEF,
        CHR 0xF0, CHR 0xF1, CHR 0xF2, CHR 0xF3, CHR 0xF4, CHR 0xF5, CHR 0xF6, CHR 0xF8,
        CHR 0xF9, CHR 0xFA, CHR 0xFB, CHR 0xFC, CHR 0xFD, CHR 0xFE]"

definition lower_char :: "char \<Rightarrow> char" where
  "lower_char c =
     (case map_of (zip (''ABCDEFGHIJKLMNOPQRSTUVWXYZ'' @ upper_latin)
                       (''abcdefghijklmnopqrstuvwxyz'' @ lower_latin)) c of
        None \<Rightarrow> c
      | Some l \<Rightarrow> l)"

definition lower :: "string \<Rightarrow> string" where
  \<comment> \<open>\<open>str.lower()\<close>\<close>
  "lower s = map lower_char s"

definition startswith :: "string \<Rightarrow> string \<Rightarrow> bool" where
  "startswith s p = (take (length p) s = p)"

fun str_in :: "string \<Rightarrow> string \<Rightarrow> bool" where
  \<comment> \<open>\<open>needle in hay\<close> on two \<open>str\<close> values\<close>
  "str_in needle [] = (needle = [])"
| "str_in needle (c # cs) = (startswith (c # cs) needle \<or> str_in needle cs)"

definition strip :: "string \<Rightarrow> string" where
  \<comment> \<open>\<open>str.strip()\<close> with no argument\<close>
  "strip s = rev (dropWhile is_space (rev (dropWhile is_space s)))"

fun join :: "string \<Rightarrow> string list \<Rightarrow> string" where
  \<comment> \<open>\<open>sep.join(parts)\<close>\<close>
  "join sep [] = []"
| "join sep [x] = x"
| "join sep (x # y # ys) = x @ sep @ join sep (y # ys)"

definition truthy :: "string option \<Rightarrow> bool" where
  \<comment> \<open>truth value of a \<open>dict.get\<close> result holding text: \<open>None\<close> and \<open>""\<close> are false\<close>
  "truthy v = (case v of None \<Rightarrow> False | Some s \<Rightarrow> s \<noteq> [])"

section \<open>State (app/state.py)\<close>

text \<open>
  \<open>AgentState\<close> is a \<open>TypedDict\<close>; at run time it is a plain dict in which any key may be
  missing. Each field is therefore an option, \<open>None\<close> meaning that the key is absent. The
  same type serves for the partial dicts the nodes return.
\<close>

record research_result =
  source :: string
  content :: string

datatype template =
  PlanTemplate | SummarizeTemplate | FactCheckTemplate | FinalAnswerTemplate | FollowUpTemplate

type_synonym inputs = "(string \<times> string) list"

record agent_state =
  thread_id :: "string option"
  query :: "string option"
  original_query :: "string option"
  research_plan :: "string option"
  raw_research_results :: "research_result list option"
  summary :: "string option"
  fact_check_results :: "string option"
  messages :: "inputs list option"
  final_chain :: "template option option"
  final_chain_inputs :: "inputs option"

definition no_keys :: agent_state where
  "no_keys = \<lparr>thread_id = None, query = None, original_query = None, research_plan = None,
     raw_research_results = None, summary = None, fact_check_results = None, messages = None,
     final_chain = None, final_chain_inputs = None\<rparr>"

definition orelse :: "'a option \<Rightarrow> 'a option \<Rightarrow> 'a option" where
  "orelse new old = (case new of None \<Rightarrow> old | Some v \<Rightarrow> Some v)"

definition merge :: "agent_state \<Rightarrow> agent_state \<Rightarrow> agent_state" where
  \<comment> \<open>the keys of the update overwrite, every other key is kept\<close>
  "merge st upd = \<lparr>
     thread_id = orelse (thread_id upd) (thread_id st),
     query = orelse (query upd) (query st),
     original_query = orelse (original_query upd) (original_query st),
     research_plan = orelse (research_plan upd) (research_plan st),
     raw_research_results = orelse (raw_research_results upd) (raw_research_results st),
     summary = orelse (summary upd) (summary st),
     fact_check_results = orelse (fact_check_results upd) (fact_check_results st),
     messages = orelse (messages upd) (messages st),
     final_chain = orelse (final_chain upd) (final_chain st),
     final_chain_inputs = orelse (final_chain_inputs upd) (final_chain_inputs st)\<rparr>"

section \<open>Router (app/agents.py)\<close>

datatype node =
  GenerateResearchPlan | RetrieveInfo | SummarizeInfo | FactCheckSummary
  | GenerateFinalAnswer | AnswerFollowUpQuestion

definition get_or :: "'a option \<Rightarrow> 'a \<Rightarrow> 'a" where
  \<comment> \<open>\<open>state.get(key, default)\<close>\<close>
  "get_or v d = (case v of None \<Rightarrow> d | Some x \<Rightarrow> x)"

definition route_initial_or_follow_up :: "agent_state \<Rightarrow> node" where
  "route_initial_or_follow_up state =
     (let user_query = lower (get_or (query state) [])
      in if str_in ''change'' user_query \<and> str_in ''plan'' user_query then GenerateResearchPlan
         else if truthy (summary state) then AnswerFollowUpQuestion
         else GenerateResearchPlan)"



section \<open>Collaborators\<close>

text \<open>
  The language model and the search tool are outside the program. Each is a parameter: a
  function of the request and of a state of the outside world \<open>'w\<close> that it may change,
  so that two equal requests need not get equal answers. Every node also returns the list
  of the calls it made.
\<close>

datatype exn = KeyError string | CollaboratorError string

datatype result_item =
  Item "string option" "string option" "string option"
    \<comment> \<open>a dict, read with \<open>get('url')\<close>, \<open>get('content')\<close>, \<open>get('snippet')\<close>\<close>
  | NotADict
    \<comment> \<open>anything on which \<open>.get\<close> raises\<close>

datatype tavily_response =
  TavilyRaises
  | TavilyResponse "result_item list option"
    \<comment> \<open>a dict, read with \<open>get('results', [])\<close>\<close>

datatype call = LLMInvoke template inputs | LLMStream template inputs | TavilySearch string

record 'w collaborators =
  llm_invoke :: "template \<Rightarrow> inputs \<Rightarrow> 'w \<Rightarrow> (exn + string) \<times> 'w"
  llm_astream :: "template \<Rightarrow> inputs \<Rightarrow> 'w \<Rightarrow> (string list \<times> exn option) \<times> 'w"
  tavily_invoke :: "string \<Rightarrow> 'w \<Rightarrow> tavily_response \<times> 'w"
  uuid4 :: "'w \<Rightarrow> string \<times> 'w"

type_synonym 'w node_result = "(exn + agent_state) \<times> call list \<times> 'w"

section \<open>Nodes (app/agents.py)\<close>

definition generate_research_plan :: "'w collaborators \<Rightarrow> agent_state \<Rightarrow> 'w \<Rightarrow> 'w node_result" where
  "generate_research_plan env state w =
     (case original_query state of
        None \<Rightarrow> (Inl (KeyError ''original_query''), [], w)
      | Some q \<Rightarrow>
          (let (r, w') = llm_invoke env PlanTemplate [(''query'', q)] w
           in (case r of
                 Inl e \<Rightarrow> Inl e
               | Inr plan \<Rightarrow> Inr (no_keys\<lparr>research_plan := Some plan\<rparr>),
               [LLMInvoke PlanTemplate [(''query'', q)]], w')))"

subsection \<open>The plan's numbered lines\<close>

text \<open>
  \<open>re.findall(r"^\s*\d+\.\s*(.*)", research_plan, re.MULTILINE)\<close>. One attempt at a
  position is deterministic: the classes of \<open>\s\<close>, \<open>\d\<close> and the dot are disjoint, so a
  greedy repetition never gives a character back, and \<open>.*\<close> takes the rest of the line.
  \<open>match_numbered\<close> returns group 1 and the text after the match. \<open>findall_numbered\<close>
  scans the text; its flag says whether the position is the start of the text or follows
  a line feed, where \<open>^\<close> holds.
\<close>

definition match_numbered :: "string \<Rightarrow> (string \<times> string) option" where
  "match_numbered s =
     (let s1 = dropWhile is_space s;
          s2 = dropWhile is_digit s1
      in if takeWhile is_digit s1 = [] then None
         else (case s2 of
                 [] \<Rightarrow> None
               | c # s3 \<Rightarrow>
                   if c \<noteq> CHR ''.'' then None
                   else (let s4 = dropWhile is_space s3
                         in Some (takeWhile (\<lambda>c. c \<noteq> newline) s4,
                                  dropWhile (\<lambda>c. c \<noteq> newline) s4))))"

lemma match_numbered_shorter:
  assumes "match_numbered s = Some (g, rest)"
  shows "length rest < length s"
proof -
  obtain c s3 where s2: "dropWhile is_digit (dropWhile is_space s) = c # s3"
    and rest: "rest = dropWhile (\<lambda>c. c \<noteq> newline) (dropWhile is_space s3)"
    using assms by (auto simp: match_numbered_def Let_def split: if_splits list.splits)
  have "length rest \<le> length s3"
    unfolding rest using length_dropWhile_le le_trans by blast
  moreover have "length (c # s3) \<le> length s"
    unfolding s2 [symmetric] using length_dropWhile_le le_trans by blast
  ultimately show ?thesis by simp
qed

function findall_numbered :: "bool \<Rightarrow> string \<Rightarrow> string list" where
  "findall_numbered bol [] = []"
| "findall_numbered bol (c # cs) =
     (case (if bol then match_numbered (c # cs) else None) of
        Some (g, rest) \<Rightarrow> g # findall_numbered False rest
      | None \<Rightarrow> findall_numbered (c = newline) cs)"
  by pat_completeness auto
termination
proof (relation "measure (\<lambda>(bol, s). length s)")
  show "wf (measure (\<lambda>(bol, s). length s))" by simp
next
  fix bol c cs x2 x y
  assume "(if bol then match_numbered (c # cs) else None) = Some x2" "(x, y) = x2"
  then have "match_numbered (c # cs) = Some (x, y)" by (auto split: if_splits)
  then show "((False, y), (bol, c # cs)) \<in> measure (\<lambda>(bol, s). length s)"
    using match_numbered_shorter by fastforce
next
  fix bol c cs
  show "((c = newline, cs), (bol, c # cs)) \<in> measure (\<lambda>(bol, s). length s)" by simp
qed

definition search_queries_of :: "string \<Rightarrow> string list" where
  \<comment> \<open>\<open>re.findall(...) or [research_plan]\<close>\<close>
  "search_queries_of plan =
     (let found = findall_numbered True plan
      in if found = [] then [plan] else found)"

subsection \<open>Retrieval\<close>

fun scan_items ::
  "result_item list \<Rightarrow> research_result list \<times> string set \<Rightarrow> research_result list \<times> string set" where
  \<comment> \<open>the inner loop; \<open>NotADict\<close> raises, which leaves the loop for the handler\<close>
  "scan_items [] acc = acc"
| "scan_items (NotADict # items) acc = acc"
| "scan_items (Item url c snippet # items) (all_results, processed_urls) =
     (case (url, if truthy c then c else snippet) of
        (Some u, Some txt) \<Rightarrow>
          if u \<noteq> [] \<and> u \<notin> processed_urls \<and> txt \<noteq> []
          then scan_items items
                 (all_results @ [\<lparr>source = u, content = txt\<rparr>], insert u processed_urls)
          else scan_items items (all_results, processed_urls)
      | _ \<Rightarrow> scan_items items (all_results, processed_urls))"

fun retrieve_loop ::
  "'w collaborators \<Rightarrow> string list \<Rightarrow> research_result list \<times> string set \<Rightarrow> 'w
     \<Rightarrow> (research_result list \<times> string set) \<times> call list \<times> 'w" where
  \<comment> \<open>the outer loop; a failed search is logged and the loop goes on\<close>
  "retrieve_loop env [] acc w = (acc, [], w)"
| "retrieve_loop env (q # qs) acc w =
     (let (tavily_response, w1) = tavily_invoke env q w;
          acc1 = (case tavily_response of
                    TavilyRaises \<Rightarrow> acc
                  | TavilyResponse results \<Rightarrow> scan_items (get_or results []) acc);
          (acc2, calls, w2) = retrieve_loop env qs acc1 w1
      in (acc2, TavilySearch q # calls, w2))"

definition retrieve_info :: "'w collaborators \<Rightarrow> agent_state \<Rightarrow> 'w \<Rightarrow> 'w node_result" where
  "retrieve_info env state w =
     (let plan = get_or (research_plan state) [];
          search_queries = search_queries_of plan;
          ((all_results, processed_urls), calls, w') = retrieve_loop env search_queries ([], {}) w
      in (Inr (no_keys\<lparr>raw_research_results := Some all_results\<rparr>), calls, w'))"

subsection \<open>Summary, fact check, final answer, follow-up\<close>

definition format_result :: "research_result \<Rightarrow> string" where
  \<comment> \<open>\<open>f"Source: {res['source']}\nContent: {res['content']}"\<close>\<close>
  "format_result res = ''Source: '' @ source res @ [newline] @ ''Content: '' @ content res"

definition format_results :: "research_result list \<Rightarrow> string" where
  "format_results raw_results = join [newline, newline] (map format_result raw_results)"

definition no_results_message :: string where
  "no_results_message = ''No substantial research results were found to summarize.''"

definition summarize_info :: "'w collaborators \<Rightarrow> agent_state \<Rightarrow> 'w \<Rightarrow> 'w node_result" where
  "summarize_info env state w =
     (let raw_results = get_or (raw_research_results state) []
      in case query state of
           None \<Rightarrow> (Inl (KeyError ''query''), [], w)
         | Some q \<Rightarrow>
             (let formatted_results = format_results raw_results
              in if strip formatted_results = []
                 then (Inr (no_keys\<lparr>summary := Some no_results_message\<rparr>), [], w)
                 else (let ins = [(''query'', q), (''results'', formatted_results)];
                           (r, w') = llm_invoke env SummarizeTemplate ins w
                       in (case r of
                             Inl e \<Rightarrow> Inl e
                           | Inr s \<Rightarrow> Inr (no_keys\<lparr>summary := Some s\<rparr>),
                           [LLMInvoke SummarizeTemplate ins], w'))))"

definition fact_check_skipped_message :: string where
  "fact_check_skipped_message = ''Fact-check skipped: No original research results.''"

definition fact_check_summary :: "'w collaborators \<Rightarrow> agent_state \<Rightarrow> 'w \<Rightarrow> 'w node_result" where
  "fact_check_summary env state w =
     (let summ = get_or (summary state) [];
          raw_results = get_or (raw_research_results state) []
      in case query state of
           None \<Rightarrow> (Inl (KeyError ''query''), [], w)
         | Some q \<Rightarrow>
             if raw_results = []
             then (Inr (no_keys\<lparr>fact_check_results := Some fact_check_skipped_message\<rparr>), [], w)
             else (let ins = [(''query'', q), (''summary'', summ),
                              (''results'', format_results raw_results)];
                       (r, w') = llm_invoke env FactCheckTemplate ins w
                   in (case r of
                         Inl e \<Rightarrow> Inl e
                       | Inr report \<Rightarrow> Inr (no_keys\<lparr>fact_check_results := Some report\<rparr>),
                       [LLMInvoke FactCheckTemplate ins], w')))"

definition generate_final_answer :: "'w collaborators \<Rightarrow> agent_state \<Rightarrow> 'w \<Rightarrow> 'w node_result" where
  "generate_final_answer env state w =
     (case summary state of
        None \<Rightarrow> (Inl (KeyError ''summary''), [], w)
      | Some summ \<Rightarrow>
          (case fact_check_results state of
             None \<Rightarrow> (Inl (KeyError ''fact_check_results''), [], w)
           | Some fc \<Rightarrow>
               (case query state of
                  None \<Rightarrow> (Inl (KeyError ''query''), [], w)
                | Some q \<Rightarrow>
                    (Inr (no_keys\<lparr>final_chain := Some (Some FinalAnswerTemplate),
                            final_chain_inputs :=
                              Some [(''query'', q), (''summary'', summ),
                                    (''fact_check_results'', fc)]\<rparr>), [], w))))"

definition no_summary_fallback :: string where
  "no_summary_fallback = ''No previous summary available.''"

definition no_fact_check_fallback :: string where
  "no_fact_check_fallback = ''No fact-check was performed.''"

definition no_sources_fallback :: string where
  "no_sources_fallback = ''No sources were retrieved.''"

definition follow_up_inputs :: "agent_state \<Rightarrow> inputs" where
  "follow_up_inputs state =
     (let summ = get_or (summary state) no_summary_fallback;
          fc = get_or (fact_check_results state) no_fact_check_fallback;
          raw_results = get_or (raw_research_results state) [];
          formatted_results = format_results raw_results;
          formatted_results =
            (if strip formatted_results = [] then no_sources_fallback else formatted_results);
          follow_up_query = get_or (query state) []
      in [(''summary'', summ), (''fact_check_results'', fc),
          (''formatted_results'', formatted_results), (''follow_up_query'', follow_up_query)])"

definition answer_follow_up_question :: "'w collaborators \<Rightarrow> agent_state \<Rightarrow> 'w \<Rightarrow> 'w node_result" where
  "answer_follow_up_question env state w =
     (Inr (no_keys\<lparr>final_chain := Some (Some FollowUpTemplate),
             final_chain_inputs := Some (follow_up_inputs state)\<rparr>), [], w)"

section \<open>Graph (app/graph.py)\<close>

fun node_fn :: "node \<Rightarrow> 'w collaborators \<Rightarrow> agent_state \<Rightarrow> 'w \<Rightarrow> 'w node_result" where
  "node_fn GenerateResearchPlan = generate_research_plan"
| "node_fn RetrieveInfo = retrieve_info"
| "node_fn SummarizeInfo = summarize_info"
| "node_fn FactCheckSummary = fact_check_summary"
| "node_fn GenerateFinalAnswer = generate_final_answer"
| "node_fn AnswerFollowUpQuestion = answer_follow_up_question"

fun edge :: "node \<Rightarrow> node option" where
  \<comment> \<open>\<open>add_edge\<close>; \<open>None\<close> is \<open>END\<close>\<close>
  "edge GenerateResearchPlan = Some RetrieveInfo"
| "edge RetrieveInfo = Some SummarizeInfo"
| "edge SummarizeInfo = Some FactCheckSummary"
| "edge FactCheckSummary = Some GenerateFinalAnswer"
| "edge GenerateFinalAnswer = None"
| "edge AnswerFollowUpQuestion = None"

definition interrupt_before :: "node list" where
  "interrupt_before = [RetrieveInfo]"

text \<open>
  The compiled graph runs on a library, configured by \<open>create_research_graph\<close>: the router
  as conditional entry point, the edges above, an interrupt before \<open>retrieve_info\<close> and a
  checkpointer keyed by thread id. The run-time behaviour is written out here as that
  configuration and sections 4.4 to 4.6 of the specification describe it. A checkpoint
  holds the state and the node that is to run next, if any. A run started with input
  merges the input into the thread's state and enters at the node the router names; a run
  started without input continues at the checkpoint's pending node. A node's output is
  merged into the state and streamed as one chunk; a node that raises ends the run and
  stays pending. Before a node listed in \<open>interrupt_before\<close> the run stops, unless the run
  is a continuation that starts at this node.
\<close>

record snapshot =
  snap_values :: agent_state
  snap_next :: "node option"

type_synonym checkpointer = "string \<Rightarrow> snapshot option"

type_synonym 'w run_result =
  "(node \<times> agent_state) list \<times> agent_state \<times> node option \<times> exn option \<times> call list \<times> 'w"

fun hops :: "node \<Rightarrow> nat" where
  "hops GenerateResearchPlan = 4"
| "hops RetrieveInfo = 3"
| "hops SummarizeInfo = 2"
| "hops FactCheckSummary = 1"
| "hops GenerateFinalAnswer = 0"
| "hops AnswerFollowUpQuestion = 0"

lemma edge_hops: "edge n = Some m \<Longrightarrow> hops m < hops n"
  by (cases n) auto

function run_from ::
  "'w collaborators \<Rightarrow> bool \<Rightarrow> node \<Rightarrow> agent_state \<Rightarrow> 'w \<Rightarrow> 'w run_result" where
  "run_from env resuming n state w =
     (if n \<in> set interrupt_before \<and> \<not> resuming then ([], state, Some n, None, [], w)
      else (case node_fn n env state w of
              (Inl e, calls, w1) \<Rightarrow> ([], state, Some n, Some e, calls, w1)
            | (Inr out, calls, w1) \<Rightarrow>
                (case edge n of
                   None \<Rightarrow> ([(n, out)], merge state out, None, None, calls, w1)
                 | Some m \<Rightarrow>
                     (let (chunks, state2, nxt, err, calls2, w2) =
                            run_from env False m (merge state out) w1
                      in ((n, out) # chunks, state2, nxt, err, calls @ calls2, w2)))))"
  by pat_completeness auto
termination
  by (relation "measure (\<lambda>(env, resuming, n, state, w). hops n)") (auto simp: edge_hops)

declare run_from.simps [simp del]

definition astream ::
  "'w collaborators \<Rightarrow> checkpointer \<Rightarrow> string \<Rightarrow> agent_state option \<Rightarrow> 'w
     \<Rightarrow> (node \<times> agent_state) list \<times> exn option \<times> call list \<times> checkpointer \<times> 'w" where
  "astream env store tid input w =
     (case input of
        Some input_data \<Rightarrow>
          (let state = merge (case store tid of None \<Rightarrow> no_keys | Some snap \<Rightarrow> snap_values snap)
                         input_data;
               (chunks, state', nxt, err, calls, w') =
                 run_from env False (route_initial_or_follow_up state) state w
           in (chunks, err, calls, store(tid \<mapsto> \<lparr>snap_values = state', snap_next = nxt\<rparr>), w'))
      | None \<Rightarrow>
          (case store tid of
             None \<Rightarrow> ([], None, [], store, w)
           | Some snap \<Rightarrow>
               (case snap_next snap of
                  None \<Rightarrow> ([], None, [], store, w)
                | Some n \<Rightarrow>
                    (let (chunks, state', nxt, err, calls, w') =
                           run_from env True n (snap_values snap) w
                     in (chunks, err, calls,
                         store(tid \<mapsto> \<lparr>snap_values = state', snap_next = nxt\<rparr>), w')))))"

definition update_state :: "checkpointer \<Rightarrow> string \<Rightarrow> agent_state \<Rightarrow> checkpointer" where
  \<comment> \<open>merges the update into the thread's checkpoint and leaves its pending node as it is;
      on a thread without a checkpoint the update counts as the input of a run, and the
      node the router names for it is pending\<close>
  "update_state store tid upd =
     store(tid \<mapsto> (case store tid of
                      None \<Rightarrow> \<lparr>snap_values = merge no_keys upd,
                               snap_next = Some (route_initial_or_follow_up (merge no_keys upd))\<rparr>
                    | Some snap \<Rightarrow> snap\<lparr>snap_values := merge (snap_values snap) upd\<rparr>))"

section \<open>Endpoints (main.py)\<close>

datatype event =
  ThreadIdEvent string
  | ResearchPlanEvent string
  | RawResearchResultsEvent "research_result list"
  | SummaryEvent string
  | FactCheckResultsEvent string
  | FinalAnswerStart
  | FinalAnswerChunk string
  | Done
  | ErrorEvent exn

datatype response = JSONResponse nat string | StreamingResponse "event list"

record chat_request =
  req_query :: "string option"
  req_thread_id :: "string option"

record continue_request =
  cont_thread_id :: "string option"
  cont_research_plan :: "string option"

text \<open>
  A node output that carries a chain and its inputs is rendered by streaming the chain.
  Only the two nodes that lead to \<open>END\<close> return one, so handling the chunks after the run
  of the graph visits the collaborators in the same order as handling each chunk when it
  arrives.
\<close>

definition stream_final ::
  "'w collaborators \<Rightarrow> agent_state \<Rightarrow> 'w \<Rightarrow> event list \<times> exn option \<times> call list \<times> 'w" where
  "stream_final env node_output w =
     (case (final_chain node_output, final_chain_inputs node_output) of
        (Some (Some t), Some ins) \<Rightarrow>
          if ins \<noteq> []
          then (let ((chunks, err), w') = llm_astream env t ins w
                in (FinalAnswerStart # map FinalAnswerChunk chunks, err, [LLMStream t ins], w'))
          else ([], None, [], w)
      | _ \<Rightarrow> ([], None, [], w))"

fun chat_events ::
  "'w collaborators \<Rightarrow> (node \<times> agent_state) list \<Rightarrow> exn option \<Rightarrow> 'w
     \<Rightarrow> event list \<times> call list \<times> 'w" where
  "chat_events env [] err w =
     ((case err of None \<Rightarrow> [Done] | Some e \<Rightarrow> [ErrorEvent e]), [], w)"
| "chat_events env ((node_name, node_output) # rest) err w =
     (case research_plan node_output of
        Some (c # cs) \<Rightarrow> ([ResearchPlanEvent (c # cs)], [], w)
      | _ \<Rightarrow>
          (let (evs, ferr, calls, w1) = stream_final env node_output w
           in case ferr of
                Some e \<Rightarrow> (evs @ [ErrorEvent e], calls, w1)
              | None \<Rightarrow>
                  (let (evs2, calls2, w2) = chat_events env rest err w1
                   in (evs @ evs2, calls @ calls2, w2))))"

definition new_conversation_input :: "string \<Rightarrow> string \<Rightarrow> agent_state" where
  "new_conversation_input tid user_query =
     \<lparr>thread_id = Some tid, query = Some user_query, original_query = None,
      research_plan = Some [], raw_research_results = Some [], summary = Some [],
      fact_check_results = Some [], messages = Some [], final_chain = Some None,
      final_chain_inputs = Some []\<rparr>"

definition chat_endpoint ::
  "'w collaborators \<Rightarrow> checkpointer \<Rightarrow> chat_request option \<Rightarrow> 'w
     \<Rightarrow> response \<times> call list \<times> checkpointer \<times> 'w" where
  \<comment> \<open>the request body is \<open>None\<close> when it is not JSON\<close>
  "chat_endpoint env store body w =
     (case body of
        None \<Rightarrow> (JSONResponse 400 ''Invalid JSON body.'', [], store, w)
      | Some data \<Rightarrow>
          (case req_query data of
             Some (c # cs) \<Rightarrow>
               (let user_query = c # cs;
                    (tid, input_data, w0) =
                      (case req_thread_id data of
                         Some (d # ds) \<Rightarrow> (d # ds, no_keys\<lparr>query := Some user_query\<rparr>, w)
                       | _ \<Rightarrow> (let (fresh, w0) = uuid4 env w
                                in (fresh, new_conversation_input fresh user_query, w0)));
                    (chunks, err, calls, store', w1) = astream env store tid (Some input_data) w0;
                    (evs, calls2, w2) = chat_events env chunks err w1
                in (StreamingResponse (ThreadIdEvent tid # evs), calls @ calls2, store', w2))
           | _ \<Rightarrow> (JSONResponse 400 ''Query is required.'', [], store, w)))"

definition key_events :: "agent_state \<Rightarrow> event list" where
  \<comment> \<open>\<open>for key in ["raw_research_results", "summary", "fact_check_results"]\<close>\<close>
  "key_events node_output =
     (case raw_research_results node_output of None \<Rightarrow> [] | Some r \<Rightarrow> [RawResearchResultsEvent r])
     @ (case summary node_output of None \<Rightarrow> [] | Some s \<Rightarrow> [SummaryEvent s])
     @ (case fact_check_results node_output of None \<Rightarrow> [] | Some f \<Rightarrow> [FactCheckResultsEvent f])"

fun continue_events ::
  "'w collaborators \<Rightarrow> (node \<times> agent_state) list \<Rightarrow> exn option \<Rightarrow> 'w
     \<Rightarrow> event list \<times> call list \<times> 'w" where
  "continue_events env [] err w =
     ((case err of None \<Rightarrow> [Done] | Some e \<Rightarrow> [ErrorEvent e]), [], w)"
| "continue_events env ((node_name, node_output) # rest) err w =
     (let (evs, ferr, calls, w1) = stream_final env node_output w
      in case ferr of
           Some e \<Rightarrow> (key_events node_output @ evs @ [ErrorEvent e], calls, w1)
         | None \<Rightarrow>
             (let (evs2, calls2, w2) = continue_events env rest err w1
              in (key_events node_output @ evs @ evs2, calls @ calls2, w2)))"

definition chat_continue_endpoint ::
  "'w collaborators \<Rightarrow> checkpointer \<Rightarrow> continue_request option \<Rightarrow> 'w
     \<Rightarrow> response \<times> call list \<times> checkpointer \<times> 'w" where
  "chat_continue_endpoint env store body w =
     (case body of
        None \<Rightarrow> (JSONResponse 400 ''Invalid JSON body.'', [], store, w)
      | Some data \<Rightarrow>
          (case (cont_thread_id data, cont_research_plan data) of
             (Some (c # cs), Some (d # ds)) \<Rightarrow>
               (let tid = c # cs;
                    store1 = update_state store tid (no_keys\<lparr>research_plan := Some (d # ds)\<rparr>);
                    (chunks, err, calls, store2, w1) = astream env store1 tid None w;
                    (evs, calls2, w2) = continue_events env chunks err w1
                in (StreamingResponse evs, calls @ calls2, store2, w2))
           | _ \<Rightarrow> (JSONResponse 400 ''thread_id and research_plan are required.'', [], store, w)))"

section \<open>What the search responses offer\<close>

text \<open>
  Notions for stating what the retrieval loop computes: the responses the search tool
  gives to the queries in turn, the items of a response that the loop reads (none when
  the call raises or the response has no \<open>results\<close>, and only those before an item that
  makes the loop raise), the entry an item yields when it has a url and a content or
  snippet, and the entries offered by all the responses, in the order of reading.
  \<open>keep_first\<close> keeps, of the entries with one source, the first.
\<close>

fun responses_of :: "'w collaborators \<Rightarrow> string list \<Rightarrow> 'w \<Rightarrow> tavily_response list" where
  "responses_of env [] w = []"
| "responses_of env (q # qs) w =
     (let (r, w1) = tavily_invoke env q w in r # responses_of env qs w1)"

definition items_read :: "tavily_response \<Rightarrow> result_item list" where
  "items_read r =
     (case r of
        TavilyRaises \<Rightarrow> []
      | TavilyResponse None \<Rightarrow> []
      | TavilyResponse (Some items) \<Rightarrow> takeWhile (\<lambda>i. i \<noteq> NotADict) items)"

fun usable :: "result_item \<Rightarrow> research_result option" where
  "usable NotADict = None"
| "usable (Item u c s) =
     (case (u, if truthy c then c else s) of
        (Some url, Some txt) \<Rightarrow>
          if url \<noteq> [] \<and> txt \<noteq> [] then Some \<lparr>source = url, content = txt\<rparr> else None
      | _ \<Rightarrow> None)"

definition candidates :: "tavily_response list \<Rightarrow> research_result list" where
  "candidates rs = concat (map (\<lambda>r. List.map_filter usable (items_read r)) rs)"

definition retrieved :: "'w node_result \<Rightarrow> research_result list" where
  "retrieved r = (case fst r of Inr out \<Rightarrow> get_or (raw_research_results out) [] | Inl e \<Rightarrow> [])"

fun keep_first :: "string set \<Rightarrow> research_result list \<Rightarrow> research_result list" where
  "keep_first S [] = []"
| "keep_first S (e # es) =
     (if source e \<in> S then keep_first S es else e # keep_first (insert (source e) S) es)"

text \<open>The queries of the search calls in a list of calls, in order.\<close>

fun searches :: "call list \<Rightarrow> string list" where
  "searches [] = []"
| "searches (TavilySearch q # cs) = q # searches cs"
| "searches (c # cs) = searches cs"

section \<open>The plan read line by line\<close>

text \<open>
  The wording of the specification for the sub-queries: the plan is cut into lines at the
  line feeds; a numbered line is a line made of optional blanks, a number, a point,
  optional blanks and a text, which is the rest of the line; the sub-queries are the texts
  of the numbered lines in order, or the whole plan when no line is numbered.
\<close>

fun split_lines :: "string \<Rightarrow> string list" where
  "split_lines [] = [[]]"
| "split_lines (c # cs) =
     (if c = newline then [] # split_lines cs
      else (case split_lines cs of [] \<Rightarrow> [[c]] | l # ls \<Rightarrow> (c # l) # ls))"

definition numbered_line :: "string \<Rightarrow> string option" where
  "numbered_line l =
     (let l1 = dropWhile is_space l;
          l2 = dropWhile is_digit l1
      in if takeWhile is_digit l1 \<noteq> [] \<and> take 1 l2 = ''.''
         then Some (dropWhile is_space (drop 1 l2))
         else None)"

definition sub_queries_by_line :: "string \<Rightarrow> string list" where
  "sub_queries_by_line plan =
     (let texts = List.map_filter numbered_line (split_lines plan)
      in if texts = [] then [plan] else texts)"

section \<open>Concrete collaborators and states\<close>

text \<open>
  A small outside world for the theorems that need a concrete input: its state counts the
  calls made so far; the search tool fails on the query \<open>boom\<close> and otherwise returns four
  items, two of them without a usable url or content.
\<close>

definition demo_env :: "nat collaborators" where
  "demo_env = \<lparr>
     llm_invoke = (\<lambda>t ins w. (Inr ''ok'', Suc w)),
     llm_astream = (\<lambda>t ins w. (([''chunk''], None), Suc w)),
     tavily_invoke = (\<lambda>q w.
        (if q = ''boom'' then TavilyRaises
         else TavilyResponse (Some [Item (Some ''u1'') (Some q) None,
                                    Item (Some ''u2'') None (Some ''snip''),
                                    Item None (Some ''x'') None,
                                    Item (Some ''u3'') (Some []) (Some [])]), Suc w)),
     uuid4 = (\<lambda>w. (''thread-1'', Suc w))\<rparr>"

definition suspended :: snapshot where
  \<comment> \<open>a conversation waiting for the approval of its plan\<close>
  "suspended =
     \<lparr>snap_values = (new_conversation_input ''t'' ''q'')
        \<lparr>original_query := Some ''q'', research_plan := Some ''1. orig''\<rparr>,
      snap_next = Some RetrieveInfo\<rparr>"

definition fact_check_failed :: agent_state where
  \<comment> \<open>a conversation whose summary was written and whose fact check raised; a new question\<close>
  "fact_check_failed = (new_conversation_input ''t'' ''and then?'')\<lparr>summary := Some ''found''\<rparr>"

definition two_hits :: agent_state where
  \<comment> \<open>a plan of three lines, the second of which makes the search tool fail\<close>
  "two_hits = no_keys\<lparr>research_plan := Some (''1. a'' @ [newline] @ ''2. boom'' @ [newline] @ ''3. c'')\<rparr>"



definition three_lines :: string where
  \<comment> \<open>an edited plan\<close>
  "three_lines = ''1. a'' @ [newline] @ ''2. boom'' @ [newline] @ ''3. c''"

definition marker_only :: string where
  \<comment> \<open>a plan whose first line is a number and a point with no text\<close>
  "marker_only = ''1.'' @ [newline] @ ''foo''"

section \<open>The router\<close>







section \<open>Summary and follow-up\<close>

lemma strip_empty_iff: "strip s = [] \<longleftrightarrow> (\<forall>c \<in> set s. is_space c)"
proof -
  have "strip s = [] \<longleftrightarrow> (\<forall>c \<in> set (dropWhile is_space s). is_space c)"
    by (simp add: strip_def dropWhile_eq_Nil_conv)
  also have "\<dots> \<longleftrightarrow> dropWhile is_space s = []"
    by (metis dropWhile_eq_Nil_conv dropWhile_idem)
  finally show ?thesis by (simp add: dropWhile_eq_Nil_conv)
qed

lemma join_Cons: "join sep (x # xs) = x @ (if xs = [] then [] else sep @ join sep xs)"
  by (cases xs) simp_all

lemma format_results_Cons: "\<exists>t. format_results (r # rs) = CHR ''S'' # t"
  by (simp add: format_results_def join_Cons format_result_def)

lemma strip_format_results: "strip (format_results rs) = [] \<longleftrightarrow> rs = []"
proof (cases rs)
  case Nil
  then show ?thesis by (simp add: format_results_def strip_def)
next
  case (Cons r rs')
  then obtain t where "format_results rs = CHR ''S'' # t"
    using format_results_Cons by blast
  moreover have "\<not> is_space CHR ''S''" by (simp add: is_space_def)
  ultimately show ?thesis using Cons by (auto simp: strip_empty_iff)
qed

text \<open>
  C8. When the state has its query and the formatted research results are empty once
  stripped of surrounding whitespace, the summarize node returns the fixed message as the
  summary, calls no collaborator and leaves the outside world as it was. By
  \<open>strip_format_results\<close> this is the case exactly when there are no results.
\<close>

theorem summarize_short_circuit:
  assumes "query state = Some q"
      and "strip (format_results (get_or (raw_research_results state) [])) = []"
  shows "summarize_info env state w = (Inr (no_keys\<lparr>summary := Some no_results_message\<rparr>), [], w)"
  using assms by (simp add: summarize_info_def Let_def)

theorem summarize_short_circuit_witness:
  "summarize_info demo_env (new_conversation_input ''t'' ''q'') 0
     = (Inr (no_keys\<lparr>summary := Some no_results_message\<rparr>), [], 0)"
  using summarize_short_circuit [of "new_conversation_input ''t'' ''q''" "''q''" demo_env 0]
  by (simp add: new_conversation_input_def get_or_def format_results_def strip_def)

text \<open>
  C10, as the code has it. The follow-up node never fails. A missing summary and a missing
  fact-check report are replaced by their fixed texts; missing or empty research results
  by \<open>No sources were retrieved.\<close>; a missing query by the empty text. A summary or a
  fact-check report that is present is passed on as it is, also when it is empty.
\<close>

theorem follow_up_total:
  "answer_follow_up_question env state w =
     (Inr (no_keys\<lparr>final_chain := Some (Some FollowUpTemplate),
        final_chain_inputs := Some
          [(''summary'', case summary state of None \<Rightarrow> no_summary_fallback | Some s \<Rightarrow> s),
           (''fact_check_results'',
              case fact_check_results state of None \<Rightarrow> no_fact_check_fallback | Some f \<Rightarrow> f),
           (''formatted_results'',
              case raw_research_results state of
                None \<Rightarrow> no_sources_fallback
              | Some [] \<Rightarrow> no_sources_fallback
              | Some (r # rs) \<Rightarrow> format_results (r # rs)),
           (''follow_up_query'', case query state of None \<Rightarrow> [] | Some q \<Rightarrow> q)]\<rparr>), [], w)"
  by (simp add: answer_follow_up_question_def follow_up_inputs_def Let_def get_or_def
      strip_format_results split: option.splits list.splits)

text \<open>
  C10 as stated fails: with a summary in the state and an empty fact-check report, the
  router sends the question to the follow-up node, which passes the empty report on.
\<close>

theorem follow_up_empty_counterexample:
  "fact_check_results fact_check_failed = Some []
   \<and> route_initial_or_follow_up fact_check_failed = AnswerFollowUpQuestion
   \<and> answer_follow_up_question demo_env fact_check_failed 0 =
     (Inr (no_keys\<lparr>final_chain := Some (Some FollowUpTemplate),
        final_chain_inputs := Some
          [(''summary'', ''found''), (''fact_check_results'', []),
           (''formatted_results'', no_sources_fallback),
           (''follow_up_query'', ''and then?'')]\<rparr>), [], 0)"
  by (simp add: fact_check_failed_def new_conversation_input_def route_initial_or_follow_up_def
      answer_follow_up_question_def follow_up_inputs_def Let_def get_or_def truthy_def
      lower_def lower_char_def upper_latin_def lower_latin_def startswith_def format_results_def strip_def)

section \<open>First contact\<close>

text \<open>
  C1. The first request of a conversation, on an empty checkpointer: the initial state has
  no \<open>original_query\<close>, the router enters at the plan node, and the plan node raises
  \<open>KeyError\<close> before it calls the language model. The stream is the thread id followed by
  the error, and the checkpoint keeps the plan node pending.
\<close>

theorem first_contact_plan_fails:
  "chat_endpoint env Map.empty
     (Some \<lparr>req_query = Some ''Impact of microplastics on marine life'', req_thread_id = None\<rparr>) w =
   (StreamingResponse [ThreadIdEvent (fst (uuid4 env w)), ErrorEvent (KeyError ''original_query'')],
    [],
    [fst (uuid4 env w) \<mapsto>
       \<lparr>snap_values = new_conversation_input (fst (uuid4 env w)) ''Impact of microplastics on marine life'',
        snap_next = Some GenerateResearchPlan\<rparr>],
    snd (uuid4 env w))"
proof -
  obtain tid w0 where u: "uuid4 env w = (tid, w0)" by (cases "uuid4 env w")
  let ?st = "new_conversation_input tid ''Impact of microplastics on marine life''"
  have m: "merge no_keys ?st = ?st"
    by (simp add: merge_def no_keys_def new_conversation_input_def orelse_def)
  have r: "route_initial_or_follow_up ?st = GenerateResearchPlan"
    by (simp add: route_initial_or_follow_up_def new_conversation_input_def truthy_def)
  have run: "run_from env False GenerateResearchPlan ?st w0
      = ([], ?st, Some GenerateResearchPlan, Some (KeyError ''original_query''), [], w0)"
    by (simp add: run_from.simps interrupt_before_def generate_research_plan_def
        new_conversation_input_def)
  show ?thesis
    by (simp add: chat_endpoint_def u astream_def m r run)
qed

section \<open>Retrieval\<close>

lemma get_or_simps [simp]: "get_or None d = d" "get_or (Some x) d = x"
  by (simp_all add: get_or_def)

lemma keep_first_append:
  "keep_first S (xs @ ys) = keep_first S xs @ keep_first (S \<union> source ` set xs) ys"
  by (induction xs arbitrary: S) (auto simp: insert_absorb)

lemma keep_first_sources: "source ` set (keep_first S xs) = source ` set xs - S"
  by (induction xs arbitrary: S) auto

lemma keep_first_distinct: "distinct (map source (keep_first S xs))"
  by (induction xs arbitrary: S) (auto simp: keep_first_sources)

lemma keep_first_subset: "set (keep_first S xs) \<subseteq> set xs"
  by (induction xs arbitrary: S) auto

lemma keep_first_find:
  "e \<in> set (keep_first S xs) \<Longrightarrow> find (\<lambda>c. source c = source e) xs = Some e"
proof (induction xs arbitrary: S)
  case Nil
  then show ?case by simp
next
  case (Cons x xs)
  have out: "source e \<notin> S"
    using Cons.prems keep_first_sources [of S "x # xs"] by blast
  show ?case
  proof (cases "source x \<in> S")
    case True
    with Cons out show ?thesis by auto
  next
    case False
    show ?thesis
    proof (cases "e = x")
      case True
      then show ?thesis by simp
    next
      case ne: False
      with False Cons.prems have in_rest: "e \<in> set (keep_first (insert (source x) S) xs)" by simp
      then have "source e \<noteq> source x"
        using keep_first_sources [of "insert (source x) S" xs] by blast
      with Cons.IH [OF in_rest] show ?thesis by simp
    qed
  qed
qed

lemma scan_items_keep_first:
  "scan_items items (acc, S) =
     (acc @ keep_first S (List.map_filter usable (takeWhile (\<lambda>i. i \<noteq> NotADict) items)),
      S \<union> source ` set (List.map_filter usable (takeWhile (\<lambda>i. i \<noteq> NotADict) items)))"
proof (induction items arbitrary: acc S)
  case Nil
  then show ?case by (simp add: List.map_filter_simps)
next
  case (Cons i items)
  show ?case
  proof (cases i)
    case NotADict
    then show ?thesis by (simp add: List.map_filter_simps)
  next
    case (Item u c s)
    show ?thesis
    proof (cases "usable i")
      case None
      with Item Cons show ?thesis
        by (auto simp: List.map_filter_simps split: option.splits if_splits)
    next
      case (Some e)
      with Item Cons show ?thesis
        by (auto simp: List.map_filter_simps insert_absorb split: option.splits if_splits)
    qed
  qed
qed

lemma scan_response:
  "(case r of TavilyRaises \<Rightarrow> (acc, S) | TavilyResponse results \<Rightarrow> scan_items (get_or results []) (acc, S))
   = (acc @ keep_first S (List.map_filter usable (items_read r)),
      S \<union> source ` set (List.map_filter usable (items_read r)))"
  by (auto simp: items_read_def get_or_def scan_items_keep_first List.map_filter_simps
      split: tavily_response.splits option.splits)

lemma retrieve_loop_keep_first:
  "fst (retrieve_loop env qs (acc, S) w) =
     (acc @ keep_first S (candidates (responses_of env qs w)),
      S \<union> source ` set (candidates (responses_of env qs w)))"
proof (induction qs arbitrary: acc S w)
  case Nil
  then show ?case by (simp add: candidates_def)
next
  case (Cons q qs)
  obtain r w1 where t: "tavily_invoke env q w = (r, w1)" by (cases "tavily_invoke env q w")
  let ?c = "List.map_filter usable (items_read r)"
  have "fst (retrieve_loop env (q # qs) (acc, S) w)
      = fst (retrieve_loop env qs (acc @ keep_first S ?c, S \<union> source ` set ?c) w1)"
    by (simp add: t scan_response split: prod.splits)
  also have "\<dots> = ((acc @ keep_first S ?c) @ keep_first (S \<union> source ` set ?c) (candidates (responses_of env qs w1)),
       (S \<union> source ` set ?c) \<union> source ` set (candidates (responses_of env qs w1)))"
    by (rule Cons.IH)
  also have "\<dots> = (acc @ keep_first S (candidates (responses_of env (q # qs) w)),
      S \<union> source ` set (candidates (responses_of env (q # qs) w)))"
    by (simp add: t candidates_def keep_first_append image_Un Un_assoc)
  finally show ?case .
qed

lemma retrieve_loop_calls: "fst (snd (retrieve_loop env qs acc w)) = map TavilySearch qs"
proof (induction qs arbitrary: acc w)
  case Nil
  then show ?case by simp
next
  case (Cons q qs)
  obtain r w1 where t: "tavily_invoke env q w = (r, w1)" by (cases "tavily_invoke env q w")
  define acc1 where "acc1 = (case r of TavilyRaises \<Rightarrow> acc
                             | TavilyResponse results \<Rightarrow> scan_items (get_or results []) acc)"
  obtain acc2 calls w2 where l: "retrieve_loop env qs acc1 w1 = (acc2, calls, w2)"
    by (metis prod.exhaust)
  have "calls = map TavilySearch qs" using Cons.IH [of acc1 w1] by (simp add: l)
  then show ?case by (simp add: t l acc1_def [symmetric])
qed

lemma retrieved_retrieve_info:
  "retrieved (retrieve_info env state w) =
     keep_first {} (candidates (responses_of env (search_queries_of (get_or (research_plan state) [])) w))"
proof -
  let ?qs = "search_queries_of (get_or (research_plan state) [])"
  obtain a S c w' where l: "retrieve_loop env ?qs ([], {}) w = ((a, S), c, w')"
    by (metis prod.exhaust)
  have "fst (retrieve_loop env ?qs ([], {}) w) = (a, S)" by (simp add: l)
  then have "a = keep_first {} (candidates (responses_of env ?qs w))"
    by (simp add: retrieve_loop_keep_first)
  then show ?thesis
    by (simp add: retrieved_def retrieve_info_def Let_def l)
qed


lemma usable_Some:
  assumes "usable i = Some e"
  shows "source e \<noteq> [] \<and> content e \<noteq> []
         \<and> (\<exists>u c s. i = Item u c s \<and> u = Some (source e) \<and> (if truthy c then c else s) = Some (content e))"
proof (cases i)
  case NotADict
  with assms show ?thesis by simp
next
  case (Item u c s)
  with assms show ?thesis
    by (cases u; cases "if truthy c then c else s") (auto split: if_splits)
qed

lemma candidates_origin:
  assumes "e \<in> set (candidates rs)"
  shows "\<exists>r \<in> set rs. \<exists>i \<in> set (items_read r). usable i = Some e"
  using assms unfolding candidates_def List.map_filter_def by fastforce

lemma two_hits_queries:
  "search_queries_of (get_or (research_plan two_hits) []) = [''a'', ''boom'', ''c'']"
  by (simp add: two_hits_def no_keys_def search_queries_of_def match_numbered_def
      is_space_def is_digit_def newline_def)

lemma two_hits_candidates:
  "candidates (responses_of demo_env [''a'', ''boom'', ''c''] 0) =
     [\<lparr>source = ''u1'', content = ''a''\<rparr>, \<lparr>source = ''u2'', content = ''snip''\<rparr>,
      \<lparr>source = ''u1'', content = ''c''\<rparr>, \<lparr>source = ''u2'', content = ''snip''\<rparr>]"
  by (simp add: demo_env_def candidates_def items_read_def List.map_filter_simps truthy_def)

lemma two_hits_retrieved:
  "retrieved (retrieve_info demo_env two_hits 0) =
     [\<lparr>source = ''u1'', content = ''a''\<rparr>, \<lparr>source = ''u2'', content = ''snip''\<rparr>]"
  by (simp only: retrieved_retrieve_info two_hits_queries two_hits_candidates) simp

lemma retrieve_info_result:
  "retrieve_info env st w =
     (Inr (no_keys\<lparr>raw_research_results := Some (retrieved (retrieve_info env st w))\<rparr>),
      map TavilySearch (search_queries_of (get_or (research_plan st) [])),
      snd (snd (retrieve_info env st w)))"
proof -
  let ?qs = "search_queries_of (get_or (research_plan st) [])"
  obtain a S c w' where l: "retrieve_loop env ?qs ([], {}) w = ((a, S), c, w')"
    by (metis prod.exhaust)
  have "c = map TavilySearch ?qs" using retrieve_loop_calls [of env ?qs "([], {})" w] by (simp add: l)
  then show ?thesis by (simp add: retrieve_info_def Let_def l retrieved_def)
qed

lemma retrieve_info_output:
  "fst (retrieve_info env state w)
     = Inr (no_keys\<lparr>raw_research_results := Some (retrieved (retrieve_info env state w))\<rparr>)"
  using retrieve_info_result [of env state w] by (metis fst_conv)

text \<open>
  C7. The retrieve node returns its results as \<open>raw_research_results\<close>, and the
  results of one retrieval pass hold no two entries with the same source.
  Each stored entry is the first, in the order of reading, of the usable entries with its
  source that the responses offer, and every source offered is stored. This holds for any
  state, any search tool and any state of the outside world.
\<close>

theorem retrieve_unique_sources:
  "fst (retrieve_info env state w)
     = Inr (no_keys\<lparr>raw_research_results := Some (retrieved (retrieve_info env state w))\<rparr>)
   \<and> distinct (map source (retrieved (retrieve_info env state w)))
   \<and> (\<forall>e \<in> set (retrieved (retrieve_info env state w)).
         find (\<lambda>c. source c = source e)
           (candidates (responses_of env (search_queries_of (get_or (research_plan state) [])) w))
         = Some e)
   \<and> source ` set (retrieved (retrieve_info env state w))
       = source ` set (candidates (responses_of env (search_queries_of (get_or (research_plan state) [])) w))"
proof (intro conjI)
  show "fst (retrieve_info env state w)
     = Inr (no_keys\<lparr>raw_research_results := Some (retrieved (retrieve_info env state w))\<rparr>)"
    by (rule retrieve_info_output)
qed (simp_all add: retrieved_retrieve_info keep_first_distinct keep_first_find keep_first_sources)

theorem retrieve_unique_sources_witness:
  "distinct (map source (retrieved (retrieve_info demo_env two_hits 0)))
   \<and> find (\<lambda>c. source c = ''u1'')
        (candidates (responses_of demo_env (search_queries_of (get_or (research_plan two_hits) [])) 0))
      = Some \<lparr>source = ''u1'', content = ''a''\<rparr>
   \<and> retrieved (retrieve_info demo_env two_hits 0) =
        [\<lparr>source = ''u1'', content = ''a''\<rparr>, \<lparr>source = ''u2'', content = ''snip''\<rparr>]"
  using retrieve_unique_sources [of demo_env two_hits 0]
  by (simp add: two_hits_retrieved)

text \<open>
  C9. The retrieve node never fails: it returns its results as \<open>raw_research_results\<close>.
  Every entry it stores has a non-empty source and
  a non-empty content: it comes from an item of a response whose url is the source and
  whose content, or snippet when the content is missing or empty, is the stored content.
  An item without a url, or with neither content nor snippet, yields no entry.
\<close>

theorem retrieve_entries_usable:
  "fst (retrieve_info env state w)
     = Inr (no_keys\<lparr>raw_research_results := Some (retrieved (retrieve_info env state w))\<rparr>)
   \<and> (\<forall>e \<in> set (retrieved (retrieve_info env state w)).
         source e \<noteq> [] \<and> content e \<noteq> []
         \<and> (\<exists>r \<in> set (responses_of env (search_queries_of (get_or (research_plan state) [])) w).
              \<exists>u c s. Item u c s \<in> set (items_read r) \<and> u = Some (source e)
                \<and> (if truthy c then c else s) = Some (content e)))"
proof
  show "fst (retrieve_info env state w)
     = Inr (no_keys\<lparr>raw_research_results := Some (retrieved (retrieve_info env state w))\<rparr>)"
    by (rule retrieve_info_output)
next
  let ?rs = "responses_of env (search_queries_of (get_or (research_plan state) [])) w"
  show "\<forall>e \<in> set (retrieved (retrieve_info env state w)).
         source e \<noteq> [] \<and> content e \<noteq> []
         \<and> (\<exists>r \<in> set ?rs. \<exists>u c s. Item u c s \<in> set (items_read r) \<and> u = Some (source e)
                \<and> (if truthy c then c else s) = Some (content e))"
  proof
    fix e
    assume "e \<in> set (retrieved (retrieve_info env state w))"
    then have "e \<in> set (candidates ?rs)"
      using keep_first_subset by (auto simp: retrieved_retrieve_info)
    then obtain r i where r: "r \<in> set ?rs" and i: "i \<in> set (items_read r)" and u: "usable i = Some e"
      using candidates_origin by blast
    from usable_Some [OF u] i r
    show "source e \<noteq> [] \<and> content e \<noteq> []
         \<and> (\<exists>r \<in> set ?rs. \<exists>u c s. Item u c s \<in> set (items_read r) \<and> u = Some (source e)
                \<and> (if truthy c then c else s) = Some (content e))"
      by blast
  qed
qed

theorem retrieve_entries_usable_witness:
  "retrieved (retrieve_info demo_env two_hits 0) =
        [\<lparr>source = ''u1'', content = ''a''\<rparr>, \<lparr>source = ''u2'', content = ''snip''\<rparr>]
   \<and> (\<exists>r \<in> set (responses_of demo_env (search_queries_of (get_or (research_plan two_hits) [])) 0).
              \<exists>u c s. Item u c s \<in> set (items_read r) \<and> u = Some ''u2''
                \<and> (if truthy c then c else s) = Some ''snip'')"
  using retrieve_entries_usable [of demo_env two_hits 0]
  by (simp add: two_hits_retrieved)

section \<open>Resuming and suspending\<close>

lemma merge_plan: "merge st (no_keys\<lparr>research_plan := Some p\<rparr>) = st\<lparr>research_plan := Some p\<rparr>"
  by (simp add: merge_def no_keys_def orelse_def)

lemma searches_append [simp]: "searches (xs @ ys) = searches xs @ searches ys"
  by (induction xs rule: searches.induct) auto

lemma searches_map [simp]: "searches (map TavilySearch qs) = qs"
  by (induction qs) auto

lemma summarize_no_search: "searches (fst (snd (summarize_info env st w))) = []"
  by (auto simp: summarize_info_def Let_def split: option.splits prod.splits)

lemma fact_check_no_search: "searches (fst (snd (fact_check_summary env st w))) = []"
  by (auto simp: fact_check_summary_def Let_def split: option.splits prod.splits)

lemma final_no_search: "searches (fst (snd (generate_final_answer env st w))) = []"
  by (auto simp: generate_final_answer_def split: option.splits)

lemma follow_up_no_search: "searches (fst (snd (answer_follow_up_question env st w))) = []"
  by (simp add: answer_follow_up_question_def)

lemma node_no_search:
  "n \<noteq> RetrieveInfo \<Longrightarrow> n \<noteq> GenerateResearchPlan \<Longrightarrow> searches (fst (snd (node_fn n env st w))) = []"
  by (cases n) (simp_all add: summarize_no_search fact_check_no_search final_no_search follow_up_no_search)

lemma node_keeps_plan:
  "n \<noteq> GenerateResearchPlan \<Longrightarrow> node_fn n env st w = (Inr out, cs, w1) \<Longrightarrow> research_plan out = None"
  by (cases n)
    (auto simp: retrieve_info_def summarize_info_def fact_check_summary_def
      generate_final_answer_def answer_follow_up_question_def no_keys_def Let_def
      split: option.splits prod.splits if_splits sum.splits)

lemma merge_keeps_plan: "research_plan out = None \<Longrightarrow> research_plan (merge st out) = research_plan st"
  by (simp add: merge_def orelse_def)

lemma run_after_retrieve:
  assumes "hops n < 3" and "run_from env b n st w = (chunks, st2, nxt, err, calls, w2)"
  shows "searches calls = [] \<and> research_plan st2 = research_plan st"
  using assms
proof (induction env b n st w arbitrary: chunks st2 nxt err calls w2 rule: run_from.induct)
  case (1 env resuming n state w)
  have n: "n \<noteq> RetrieveInfo" "n \<noteq> GenerateResearchPlan" using "1.prems"(1) by auto
  then have ni: "\<not> (n \<in> set interrupt_before \<and> \<not> resuming)" by (simp add: interrupt_before_def)
  obtain r cs w1 where nf: "node_fn n env state w = (r, cs, w1)" by (metis prod.exhaust)
  have cs: "searches cs = []" using node_no_search [OF n, of env state w] by (simp add: nf)
  show ?case
  proof (cases r)
    case (Inl e)
    with "1.prems"(2) ni nf cs show ?thesis by (simp add: run_from.simps)
  next
    case (Inr out)
    have keep: "research_plan (merge state out) = research_plan state"
      using node_keeps_plan [OF n(2), of env state w out cs w1] nf Inr
      by (simp add: merge_keeps_plan)
    show ?thesis
    proof (cases "edge n")
      case None
      with "1.prems"(2) ni nf cs Inr keep show ?thesis by (auto simp: run_from.simps)
    next
      case (Some m)
      obtain chunks' st' nxt' err' calls' w' where
        rec: "run_from env False m (merge state out) w1 = (chunks', st', nxt', err', calls', w')"
        by (metis prod.exhaust)
      have "hops m < 3" using edge_hops [OF Some] "1.prems"(1) by simp
      then have ih: "searches calls' = [] \<and> research_plan st' = research_plan (merge state out)"
        using "1.IH" [OF ni nf [symmetric] _ _ Some _ rec] Inr nf by simp
      moreover have "calls = cs @ calls'" "st2 = st'"
        using "1.prems"(2) ni nf Inr Some rec by (simp_all add: run_from.simps)
      ultimately show ?thesis using cs keep by simp
    qed
  qed
qed

lemma stream_final_no_search:
  "stream_final env out w = (evs, ferr, calls, w1) \<Longrightarrow> searches calls = []"
  by (auto simp: stream_final_def split: option.splits if_splits prod.splits)

lemma continue_events_no_search:
  "continue_events env chunks err w = (evs, calls, w') \<Longrightarrow> searches calls = []"
proof (induction chunks arbitrary: evs calls w w')
  case Nil
  then show ?case by simp
next
  case (Cons ch chunks)
  obtain n out where ch: "ch = (n, out)" by (cases ch)
  obtain evs1 ferr calls1 w1 where sf: "stream_final env out w = (evs1, ferr, calls1, w1)"
    by (metis prod.exhaust)
  have c1: "searches calls1 = []" using stream_final_no_search [OF sf] .
  show ?case
  proof (cases ferr)
    case (Some e)
    with Cons.prems ch sf c1 show ?thesis by auto
  next
    case None
    obtain evs2 calls2 w2 where ce: "continue_events env chunks err w1 = (evs2, calls2, w2)"
      by (metis prod.exhaust)
    have "searches calls2 = []" using Cons.IH [OF ce] .
    with Cons.prems ch sf c1 None ce show ?thesis by auto
  qed
qed

lemma three_lines_queries: "search_queries_of three_lines = [''a'', ''boom'', ''c'']"
  by (simp add: three_lines_def search_queries_of_def match_numbered_def
      is_space_def is_digit_def newline_def)

text \<open>
  C4. A resume request for a conversation that waits before the retrieve node, with a
  non-empty thread id and a non-empty plan: the search calls of the turn are exactly the
  sub-queries of the plan supplied with the request, in order; the first event carries the
  results retrieved for that plan; and the checkpoint afterwards holds the supplied plan.
  The plan that was in the checkpoint before plays no part.
\<close>

theorem resume_uses_edited_plan:
  assumes "store tid = Some snap" and "snap_next snap = Some RetrieveInfo"
      and "tid \<noteq> []" and "plan \<noteq> []"
  shows "searches (fst (snd (chat_continue_endpoint env store
             (Some \<lparr>cont_thread_id = Some tid, cont_research_plan = Some plan\<rparr>) w)))
           = search_queries_of plan
         \<and> (\<exists>evs. fst (chat_continue_endpoint env store
                   (Some \<lparr>cont_thread_id = Some tid, cont_research_plan = Some plan\<rparr>) w)
              = StreamingResponse
                 (RawResearchResultsEvent
                    (retrieved (retrieve_info env ((snap_values snap)\<lparr>research_plan := Some plan\<rparr>) w))
                  # evs))
         \<and> (\<exists>snap'. fst (snd (snd (chat_continue_endpoint env store
                   (Some \<lparr>cont_thread_id = Some tid, cont_research_plan = Some plan\<rparr>) w))) tid
                = Some snap' \<and> research_plan (snap_values snap') = Some plan)"
proof -
  define st where "st = (snap_values snap)\<lparr>research_plan := Some plan\<rparr>"
  define rs where "rs = retrieved (retrieve_info env st w)"
  define w1 where "w1 = snd (snd (retrieve_info env st w))"
  define out where "out = no_keys\<lparr>raw_research_results := Some rs\<rparr>"
  define qs where "qs = search_queries_of plan"
  obtain tc ts where tid: "tid = tc # ts" using assms(3) by (cases tid) auto
  obtain pc ps where plan: "plan = pc # ps" using assms(4) by (cases plan) auto
  have store1: "update_state store tid (no_keys\<lparr>research_plan := Some plan\<rparr>) tid
                  = Some \<lparr>snap_values = st, snap_next = Some RetrieveInfo\<rparr>"
    using assms(1,2) by (simp add: update_state_def merge_plan st_def)
  obtain chunks st2 nxt err calls2 w2 where
    rest: "run_from env False SummarizeInfo (merge st out) w1 = (chunks, st2, nxt, err, calls2, w2)"
    by (metis prod.exhaust)
  have "research_plan (merge st out) = Some plan"
    by (simp add: merge_def orelse_def out_def no_keys_def st_def)
  then have c2: "searches calls2 = []" and kept: "research_plan st2 = Some plan"
    using run_after_retrieve [OF _ rest] by simp_all
  have ri: "retrieve_info env st w = (Inr out, map TavilySearch qs, w1)"
    using retrieve_info_result [of env st w] by (simp add: out_def rs_def w1_def qs_def st_def)
  have run: "run_from env True RetrieveInfo st w
      = ((RetrieveInfo, out) # chunks, st2, nxt, err, map TavilySearch qs @ calls2, w2)"
    by (subst run_from.simps) (simp add: ri rest)
  obtain evs3 calls3 w3 where
    ce: "continue_events env ((RetrieveInfo, out) # chunks) err w2 = (evs3, calls3, w3)"
    by (metis prod.exhaust)
  have c3: "searches calls3 = []" using continue_events_no_search [OF ce] .
  have sf: "stream_final env out w2 = ([], None, [], w2)"
    by (simp add: stream_final_def no_keys_def out_def)
  have ke: "key_events out = [RawResearchResultsEvent rs]"
    by (simp add: key_events_def no_keys_def out_def)
  have ev: "\<exists>evs. evs3 = RawResearchResultsEvent rs # evs"
    using ce by (auto simp: sf ke split: prod.splits)
  have "chat_continue_endpoint env store
             (Some \<lparr>cont_thread_id = Some tid, cont_research_plan = Some plan\<rparr>) w
        = (StreamingResponse evs3, (map TavilySearch qs @ calls2) @ calls3,
           (update_state store tid (no_keys\<lparr>research_plan := Some plan\<rparr>))
             (tid \<mapsto> \<lparr>snap_values = st2, snap_next = nxt\<rparr>), w3)"
    unfolding chat_continue_endpoint_def
    using store1 run ce by (simp add: tid plan astream_def Let_def)
  with c2 c3 ev kept show ?thesis by (auto simp: qs_def rs_def st_def)
qed

theorem resume_uses_edited_plan_witness:
  "searches (fst (snd (chat_continue_endpoint demo_env [''t'' \<mapsto> suspended]
             (Some \<lparr>cont_thread_id = Some ''t'', cont_research_plan = Some three_lines\<rparr>) 0)))
           = [''a'', ''boom'', ''c'']
   \<and> research_plan (snap_values suspended) = Some ''1. orig''"
proof -
  have "three_lines \<noteq> []" by (simp add: three_lines_def)
  then show ?thesis
    using resume_uses_edited_plan [of "[''t'' \<mapsto> suspended]" "''t''" suspended three_lines demo_env 0]
    by (simp add: three_lines_queries suspended_def)
qed










section \<open>Sub-queries\<close>

lemma dropWhile_keeps_tail:
  "dropWhile P xs \<noteq> [] \<Longrightarrow> dropWhile P (xs @ ys) = dropWhile P xs @ ys"
  by (auto simp: dropWhile_append)

lemma takeWhile_keeps_tail:
  "dropWhile P xs \<noteq> [] \<Longrightarrow> takeWhile P (xs @ ys) = takeWhile P xs"
  by (auto simp: takeWhile_append)

lemma space_not_digit: "is_digit c \<Longrightarrow> \<not> is_space c"
  by (auto simp: is_digit_def is_space_def)

lemma newline_space: "is_space newline"
  by (simp add: is_space_def newline_def)

lemma newline_not_digit: "\<not> is_digit newline"
  using newline_space space_not_digit by blast

lemma match_numbered_Nil: "match_numbered [] = None"
  by (simp add: match_numbered_def)

lemma match_numbered_text:
  assumes nl: "newline \<notin> set l" and num: "numbered_line l = Some t" and t: "t \<noteq> []"
      and X: "X = [] \<or> (\<exists>R. X = newline # R)"
  shows "match_numbered (l @ X) = Some (t, X)"
proof -
  define l1 where "l1 = dropWhile is_space l"
  define l2 where "l2 = dropWhile is_digit l1"
  from num have ds: "takeWhile is_digit l1 \<noteq> []" and dot: "take 1 l2 = ''.''"
    and t_def: "t = dropWhile is_space (drop 1 l2)"
    by (auto simp: numbered_line_def Let_def l1_def l2_def split: if_splits)
  from dot obtain l3 where l2: "l2 = CHR ''.'' # l3" by (cases l2) auto
  have t3: "t = dropWhile is_space l3" using t_def l2 by simp
  have l1_ne: "l1 \<noteq> []" using ds by auto
  have s1: "dropWhile is_space (l @ X) = l1 @ X"
    using l1_ne unfolding l1_def by (rule dropWhile_keeps_tail)
  have l2_ne: "dropWhile is_digit l1 \<noteq> []" using l2 l2_def by simp
  have s2: "dropWhile is_digit (l1 @ X) = CHR ''.'' # l3 @ X"
    using dropWhile_keeps_tail [OF l2_ne, of X] l2 l2_def by simp
  have d2: "takeWhile is_digit (l1 @ X) = takeWhile is_digit l1"
    using l2_ne by (rule takeWhile_keeps_tail)
  have t_ne: "dropWhile is_space l3 \<noteq> []" using t t3 by simp
  have s4: "dropWhile is_space (l3 @ X) = t @ X"
    using dropWhile_keeps_tail [OF t_ne, of X] t3 by simp
  have "set t \<subseteq> set l"
    unfolding t3 using l2 l2_def l1_def
    by (metis (no_types, lifting) set_dropWhileD set_subset_Cons subsetD subsetI)
  then have tnl: "\<And>x. x \<in> set t \<Longrightarrow> x \<noteq> newline" using nl by auto
  have tk: "takeWhile (\<lambda>c. c \<noteq> newline) (t @ X) = t" and dr: "dropWhile (\<lambda>c. c \<noteq> newline) (t @ X) = X"
    using X tnl by auto
  show ?thesis
    unfolding match_numbered_def Let_def s1 s2 d2 using ds by (simp add: s4 tk dr)
qed

lemma match_numbered_other:
  assumes nl: "newline \<notin> set l" and num: "numbered_line l = None"
      and nb: "dropWhile is_space l \<noteq> []"
      and X: "X = [] \<or> (\<exists>R. X = newline # R)"
  shows "match_numbered (l @ X) = None"
proof -
  define l1 where "l1 = dropWhile is_space l"
  have s1: "dropWhile is_space (l @ X) = l1 @ X"
    using nb unfolding l1_def by (rule dropWhile_keeps_tail)
  have Xd: "takeWhile is_digit X = []" "dropWhile is_digit X = X"
    using X newline_not_digit by auto
  have Xdot: "take 1 X \<noteq> ''.''" using X by (auto simp: newline_def)
  show ?thesis
  proof (cases "dropWhile is_digit l1 = []")
    case True
    then have all: "\<And>x. x \<in> set l1 \<Longrightarrow> is_digit x" by simp
    have "takeWhile is_digit (l1 @ X) = l1" "dropWhile is_digit (l1 @ X) = X"
      using all Xd by simp_all
    then show ?thesis
      unfolding match_numbered_def Let_def s1 using Xdot
      by (auto split: list.splits)
  next
    case False
    have d: "dropWhile is_digit (l1 @ X) = dropWhile is_digit l1 @ X"
      and tk: "takeWhile is_digit (l1 @ X) = takeWhile is_digit l1"
      using False by (simp_all add: dropWhile_keeps_tail takeWhile_keeps_tail)
    from num have "takeWhile is_digit l1 = [] \<or> take 1 (dropWhile is_digit l1) \<noteq> ''.''"
      by (auto simp: numbered_line_def Let_def l1_def split: if_splits)
    then show ?thesis
      unfolding match_numbered_def Let_def s1 d tk using False
      by (cases "dropWhile is_digit l1") auto
  qed
qed

lemma match_numbered_blank:
  assumes "\<forall>c \<in> set l. is_space c"
  shows "match_numbered (l @ newline # R) = match_numbered R" and "match_numbered l = None"
proof -
  have r: "dropWhile is_space (l @ newline # R) = dropWhile is_space R"
    using assms newline_space by simp
  show "match_numbered (l @ newline # R) = match_numbered R"
    unfolding match_numbered_def Let_def r by simp
  have e: "dropWhile is_space l = []" using assms by simp
  show "match_numbered l = None" unfolding match_numbered_def Let_def e by simp
qed


lemma scan_to_newline:
  "newline \<notin> set x \<Longrightarrow> findall_numbered False (x @ newline # R) = findall_numbered True R"
  by (induction x) auto

lemma scan_to_end: "newline \<notin> set x \<Longrightarrow> findall_numbered False x = []"
  by (induction x) auto

lemma findall_after_blank:
  assumes "match_numbered (l @ newline # R) = match_numbered R" and "newline \<notin> set l"
  shows "findall_numbered True (l @ newline # R) = findall_numbered True R"
proof (cases "match_numbered R")
  case None
  show ?thesis
  proof (cases l)
    case Nil
    with None assms show ?thesis by simp
  next
    case (Cons c cs)
    with None assms have "findall_numbered True (l @ newline # R) = findall_numbered False (cs @ newline # R)"
      by auto
    also have "\<dots> = findall_numbered True R" using assms(2) Cons by (simp add: scan_to_newline)
    finally show ?thesis .
  qed
next
  case (Some m)
  obtain g r where m: "m = (g, r)" by (cases m)
  from Some have "R \<noteq> []" using match_numbered_Nil by auto
  then obtain c cs where R: "R = c # cs" by (cases R) auto
  have lhs: "findall_numbered True (l @ newline # R) = g # findall_numbered False r"
    using Some m assms(1) by (cases l) simp_all
  have rhs: "findall_numbered True (c # cs) = g # findall_numbered False r"
    using Some m R by simp
  show ?thesis using lhs rhs R by simp
qed

lemma skip_line:
  assumes nl: "newline \<notin> set l" and num: "numbered_line l = None"
  shows "findall_numbered True (l @ newline # R) = findall_numbered True R"
    and "findall_numbered True l = []"
proof -
  show "findall_numbered True (l @ newline # R) = findall_numbered True R"
  proof (cases "dropWhile is_space l = []")
    case True
    then have "\<forall>c \<in> set l. is_space c" by simp
    then show ?thesis using match_numbered_blank(1) findall_after_blank nl by blast
  next
    case False
    then obtain c cs where l: "l = c # cs" by (cases l) auto
    have "match_numbered (l @ newline # R) = None"
      using match_numbered_other [OF nl num False] by blast
    then have "findall_numbered True (l @ newline # R) = findall_numbered False (cs @ newline # R)"
      using l nl by auto
    then show ?thesis using nl l by (simp add: scan_to_newline)
  qed
  show "findall_numbered True l = []"
  proof (cases l)
    case Nil
    then show ?thesis by simp
  next
    case (Cons c cs)
    have "match_numbered l = None"
    proof (cases "dropWhile is_space l = []")
      case True
      then have "\<forall>c \<in> set l. is_space c" by simp
      then show ?thesis using match_numbered_blank(2) by blast
    next
      case False
      show ?thesis using match_numbered_other [OF nl num False, of "[]"] by simp
    qed
    then have "findall_numbered True l = findall_numbered False cs"
      using Cons nl by auto
    then show ?thesis using nl Cons by (simp add: scan_to_end)
  qed
qed

lemma take_line:
  assumes nl: "newline \<notin> set l" and num: "numbered_line l = Some t" and t: "t \<noteq> []"
  shows "findall_numbered True (l @ newline # R) = t # findall_numbered True R"
    and "findall_numbered True l = [t]"
proof -
  have "l \<noteq> []" using num by (auto simp: numbered_line_def)
  then obtain c cs where l: "l = c # cs" by (cases l) auto
  have "match_numbered (l @ newline # R) = Some (t, newline # R)"
    using match_numbered_text [OF nl num t] by blast
  then show "findall_numbered True (l @ newline # R) = t # findall_numbered True R"
    using l by simp
  have "match_numbered (l @ []) = Some (t, [])"
    using match_numbered_text [OF nl num t] by blast
  then show "findall_numbered True l = [t]"
    using l by simp
qed

lemma join_lines: "ls \<noteq> [] \<Longrightarrow> join [newline] (l # ls) = l @ newline # join [newline] ls"
  by (cases ls) simp_all

lemma findall_lines:
  assumes "ls \<noteq> []" and "\<forall>l \<in> set ls. newline \<notin> set l"
      and "\<forall>l \<in> set ls. numbered_line l \<noteq> Some []"
  shows "findall_numbered True (join [newline] ls) = List.map_filter numbered_line ls"
  using assms
proof (induction ls rule: list_nonempty_induct)
  case (single l)
  show ?case
  proof (cases "numbered_line l")
    case None
    with single skip_line(2) show ?thesis by (simp add: List.map_filter_simps)
  next
    case (Some t)
    with single have "t \<noteq> []" by auto
    with single Some take_line(2) show ?thesis by (simp add: List.map_filter_simps)
  qed
next
  case (cons l ls)
  have ih: "findall_numbered True (join [newline] ls) = List.map_filter numbered_line ls"
    using cons by simp
  have nl: "newline \<notin> set l" using cons.prems by simp
  show ?case
  proof (cases "numbered_line l")
    case None
    then show ?thesis
      using skip_line(1) [OF nl None] ih cons.hyps by (simp add: join_lines List.map_filter_simps)
  next
    case (Some t)
    with cons.prems have "t \<noteq> []" by auto
    then show ?thesis
      using take_line(1) [OF nl Some] ih cons.hyps Some
      by (simp add: join_lines List.map_filter_simps)
  qed
qed

lemma split_lines_ne: "split_lines s \<noteq> []"
  by (induction s) (auto split: list.splits)

lemma split_lines_no_newline: "l \<in> set (split_lines s) \<Longrightarrow> newline \<notin> set l"
proof (induction s arbitrary: l)
  case Nil
  then show ?case by simp
next
  case (Cons c s)
  then show ?case
    by (cases "split_lines s") (auto split: if_splits)
qed

lemma join_split_lines: "join [newline] (split_lines s) = s"
proof (induction s)
  case Nil
  then show ?case by simp
next
  case (Cons c s)
  obtain l ls where sl: "split_lines s = l # ls"
    using split_lines_ne by (cases "split_lines s") auto
  show ?case
  proof (cases "c = newline")
    case True
    then show ?thesis using Cons sl by simp
  next
    case False
    then show ?thesis using Cons sl by (cases ls) simp_all
  qed
qed

lemma search_queries_by_line:
  assumes "\<forall>l \<in> set (split_lines plan). numbered_line l \<noteq> Some []"
  shows "search_queries_of plan = sub_queries_by_line plan"
proof -
  have "findall_numbered True (join [newline] (split_lines plan))
          = List.map_filter numbered_line (split_lines plan)"
    using assms split_lines_ne split_lines_no_newline by (intro findall_lines) auto
  then show ?thesis
    by (simp add: join_split_lines search_queries_of_def sub_queries_by_line_def)
qed

lemma retrieve_info_calls:
  "fst (snd (retrieve_info env state w))
     = map TavilySearch (search_queries_of (get_or (research_plan state) []))"
  using retrieve_info_result [of env state w] by (metis fst_conv snd_conv)

lemma two_hits_lines:
  "split_lines (get_or (research_plan two_hits) []) = [''1. a'', ''2. boom'', ''3. c'']"
  by (simp add: two_hits_def no_keys_def newline_def)

lemma two_hits_by_line:
  "sub_queries_by_line (get_or (research_plan two_hits) []) = [''a'', ''boom'', ''c'']"
  unfolding sub_queries_by_line_def two_hits_lines
  by (simp add: List.map_filter_simps numbered_line_def is_space_def is_digit_def)

text \<open>
  Where the code and the line-by-line reading agree: when no numbered line of the plan has
  an empty text, the search calls of the retrieve node are one call for the text of each
  numbered line, in the order of the lines, and one call for the whole plan when no line
  is numbered. A missing plan counts as the empty text.
\<close>

lemma retrieve_searches_numbered_lines:
  assumes "\<forall>l \<in> set (split_lines (get_or (research_plan state) [])). numbered_line l \<noteq> Some []"
  shows "fst (snd (retrieve_info env state w))
           = map TavilySearch (sub_queries_by_line (get_or (research_plan state) []))"
  using search_queries_by_line [OF assms] by (simp add: retrieve_info_calls)

lemma retrieve_searches_numbered_lines_example:
  "fst (snd (retrieve_info demo_env two_hits 0))
     = [TavilySearch ''a'', TavilySearch ''boom'', TavilySearch ''c'']"
proof -
  have "\<forall>l \<in> set (split_lines (get_or (research_plan two_hits) [])). numbered_line l \<noteq> Some []"
    unfolding two_hits_lines
    by (simp add: numbered_line_def is_space_def is_digit_def)
  then show ?thesis
    using retrieve_searches_numbered_lines [of two_hits demo_env 0]
    by (simp add: two_hits_by_line)
qed

text \<open>
  C6. The retrieve node is to search for the texts of the numbered lines of the plan, in
  order, or for the whole plan when no line is numbered. In the pattern the white space
  after the point may run over line feeds, so a line that holds a number and a point and
  no text takes the line after it as its text. The plan here has the two lines \<open>1.\<close> and
  \<open>foo\<close>: the first is a numbered line with an empty text, the second is not a numbered
  line, the line-by-line reading gives the empty text as the only sub-query, and the
  retrieve node searches for \<open>foo\<close>.
\<close>

theorem marker_without_text_searches_next_line:
  "split_lines marker_only = [''1.'', ''foo'']
   \<and> numbered_line ''1.'' = Some []
   \<and> numbered_line ''foo'' = None
   \<and> sub_queries_by_line marker_only = [[]]
   \<and> fst (snd (retrieve_info demo_env (no_keys\<lparr>research_plan := Some marker_only\<rparr>) 0))
       = [TavilySearch ''foo'']"
proof -
  have l: "split_lines marker_only = [''1.'', ''foo'']"
    by (simp add: marker_only_def newline_def)
  have n1: "numbered_line ''1.'' = Some []" and n2: "numbered_line ''foo'' = None"
    by (simp_all add: numbered_line_def is_space_def is_digit_def)
  have s: "sub_queries_by_line marker_only = [[]]"
    unfolding sub_queries_by_line_def l by (simp add: List.map_filter_simps n1 n2)
  have q: "search_queries_of marker_only = [''foo'']"
    by (simp add: marker_only_def search_queries_of_def match_numbered_def
        is_space_def is_digit_def newline_def)
  have "fst (snd (retrieve_info demo_env (no_keys\<lparr>research_plan := Some marker_only\<rparr>) 0))
       = [TavilySearch ''foo'']"
    by (simp add: retrieve_info_calls q)
  with l n1 n2 s show ?thesis by simp
qed

end
